theory Spec2Isabelle
  imports Complex_Main "HOL-Library.Word" "HOL-Library.Multiset"
begin

section \<open>Bytes, text and exceptions\<close>

text \<open>
  Python \<open>bytes\<close> are lists of 8-bit words; a Python \<open>str\<close> is a list of Unicode code
  points. The exceptions that the scanner's calls can raise are values of \<open>py_exception\<close>,
  and a call that may raise returns \<open>py_exception + 'a\<close>.
\<close>

type_synonym byte = "8 word"
type_synonym bytes = "byte list"
type_synonym str = "nat list"

datatype py_exception =
    OSError
  | SocketTimeout
  | ConnectionRefusedError
  | StructError
  | IndexError
  | UnicodeDecodeError
  | UnboundLocalError

subsection \<open>The codecs used by \<open>safe_decode\<close>\<close>

text \<open>
  \<open>bytes.decode('utf-8')\<close> is strict: it accepts exactly the well-formed byte sequences
  (no overlong forms, no surrogates, nothing above U+10FFFF) and raises
  \<open>UnicodeDecodeError\<close> on anything else. \<open>utf8_cps\<close> works on the byte values.
\<close>

definition cont :: "nat \<Rightarrow> bool" where
  "cont b \<longleftrightarrow> 0x80 \<le> b \<and> b \<le> 0xBF"

fun utf8_cps :: "nat list \<Rightarrow> nat list option" where
  "utf8_cps [] = Some []"
| "utf8_cps (b0 # bs) =
    (if b0 < 0x80 then map_option ((#) b0) (utf8_cps bs)
     else if 0xC2 \<le> b0 \<and> b0 \<le> 0xDF then
       (case bs of
          b1 # r \<Rightarrow>
            if cont b1
            then map_option ((#) ((b0 - 0xC0) * 64 + (b1 - 0x80))) (utf8_cps r)
            else None
        | _ \<Rightarrow> None)
     else if 0xE0 \<le> b0 \<and> b0 \<le> 0xEF then
       (case bs of
          b1 # b2 # r \<Rightarrow>
            if (if b0 = 0xE0 then 0xA0 else 0x80) \<le> b1
               \<and> b1 \<le> (if b0 = 0xED then 0x9F else 0xBF) \<and> cont b2
            then map_option
                   ((#) ((b0 - 0xE0) * 4096 + (b1 - 0x80) * 64 + (b2 - 0x80)))
                   (utf8_cps r)
            else None
        | _ \<Rightarrow> None)
     else if 0xF0 \<le> b0 \<and> b0 \<le> 0xF4 then
       (case bs of
          b1 # b2 # b3 # r \<Rightarrow>
            if (if b0 = 0xF0 then 0x90 else 0x80) \<le> b1
               \<and> b1 \<le> (if b0 = 0xF4 then 0x8F else 0xBF) \<and> cont b2 \<and> cont b3
            then map_option
                   ((#) ((b0 - 0xF0) * 262144 + (b1 - 0x80) * 4096
                          + (b2 - 0x80) * 64 + (b3 - 0x80)))
                   (utf8_cps r)
            else None
        | _ \<Rightarrow> None)
     else None)"

definition utf8_decode :: "bytes \<Rightarrow> py_exception + str" where
  "utf8_decode bs =
     (case utf8_cps (map unat bs) of
        None \<Rightarrow> Inl UnicodeDecodeError
      | Some s \<Rightarrow> Inr s)"

text \<open>
  \<open>bytes.decode('latin-1', errors='ignore')\<close>: Latin-1 maps every byte value to the code
  point of the same number, so the error handler is never consulted and nothing is
  dropped.
\<close>

definition latin1_decode_ignore :: "bytes \<Rightarrow> str" where
  "latin1_decode_ignore bs = map unat bs"

text \<open>The encoder of \<open>str.encode('utf-8')\<close>, used to say what "verbatim" means.\<close>

definition utf8_enc1 :: "nat \<Rightarrow> nat list" where
  "utf8_enc1 c =
     (if c < 0x80 then [c]
      else if c < 0x800 then [0xC0 + c div 64, 0x80 + c mod 64]
      else if c < 0x10000 then
        [0xE0 + c div 4096, 0x80 + (c div 64) mod 64, 0x80 + c mod 64]
      else [0xF0 + c div 262144, 0x80 + (c div 4096) mod 64,
            0x80 + (c div 64) mod 64, 0x80 + c mod 64])"

definition utf8_encode :: "str \<Rightarrow> bytes" where
  "utf8_encode s = map of_nat (concat (map utf8_enc1 s))"

subsection \<open>\<open>safe_decode\<close>\<close>

text \<open>
  \<^verbatim>\<open>
  def safe_decode(byte_str):
      try:
          return byte_str.decode('utf-8')
      except:
          return byte_str.decode('latin-1', errors='ignore')
  \<close>
\<close>

definition safe_decode :: "bytes \<Rightarrow> py_exception + str" where
  "safe_decode byte_str =
     (case utf8_decode byte_str of
        Inr s \<Rightarrow> Inr s
      | Inl e \<Rightarrow> Inr (latin1_decode_ignore byte_str))"

section \<open>The probe packet\<close>

text \<open>
  \<open>struct.pack('>Q', n)\<close>: the 8 bytes of \<open>n\<close>, most significant first; it raises
  \<open>struct.error\<close> when \<open>n\<close> is not in the range of an unsigned 64-bit integer.
  \<open>be_int\<close> reads a big-endian byte string back as an integer.
\<close>

fun be_bytes :: "nat \<Rightarrow> int \<Rightarrow> bytes" where
  "be_bytes 0 n = []"
| "be_bytes (Suc k) n = be_bytes k (n div 256) @ [word_of_int n]"

definition struct_pack_Q :: "int \<Rightarrow> py_exception + bytes" where
  "struct_pack_Q n =
     (if 0 \<le> n \<and> n < 2 ^ 64 then Inr (be_bytes 8 n) else Inl StructError)"

definition be_int :: "bytes \<Rightarrow> int" where
  "be_int bs = foldl (\<lambda>a b. a * 256 + uint b) 0 bs"

definition magic :: bytes where
  "magic = [0x00, 0xff, 0xff, 0x00, 0xfe, 0xfe, 0xfe, 0xfe,
            0xfd, 0xfd, 0xfd, 0xfd, 0x12, 0x34, 0x56, 0x78]"

section \<open>The world of one probe\<close>

text \<open>
  What the operating system and the network do to one probe: whether
  \<open>socket.socket(...)\<close> raises, what \<open>int(time.time())\<close> reads, whether \<open>sendto\<close>
  raises, and what \<open>recv\<close>/\<open>recvfrom\<close> does (it raises, for instance on the timeout or
  on an ICMP port-unreachable, or it returns the bytes of a datagram). A datagram handed
  to \<open>sendto\<close> is recorded with its destination.
\<close>

record probe_env =
  socket_result :: "py_exception option"
  time_now :: int
  sendto_result :: "py_exception option"
  recv_result :: "py_exception + bytes"

type_synonym datagram = "bytes \<times> string \<times> int"

section \<open>The port prober\<close>

text \<open>
  \<^verbatim>\<open>
  def check_bedrock_port(host: str, port: int) -> tuple:
      try:
          sock = socket.socket(socket.AF_INET, socket.SOCK_DGRAM)
          sock.settimeout(SCAN_TIMEOUT)
          timestamp = int(time.time())
          magic = b'\x00\xff\xff\x00\xfe\xfe\xfe\xfe\xfd\xfd\xfd\xfd\x12\x34\x56\x78'
          packet = b'\x01'
          packet += struct.pack('>Q', timestamp)
          packet += magic
          packet += struct.pack('>Q', 0)
          sock.sendto(packet, (host, port))
          data = sock.recv(1024)
          if len(data) > 0 and data[0] == 0x1c:
              return port, True
      except:
          pass
      finally:
          sock.close()
      return port, False
  \<close>
  \<open>check_bedrock_port_try\<close> is the body of the \<open>try\<close>: it raises, returns
  \<open>(port, True)\<close>, or falls through (\<open>None\<close>). \<open>check_bedrock_port\<close> adds the handler,
  which swallows every exception, and the \<open>finally\<close> clause: \<open>sock.close()\<close> reads the
  local \<open>sock\<close>, which is unbound when \<open>socket.socket\<close> itself raised, and then the
  \<open>UnboundLocalError\<close> leaves the function.
\<close>

definition check_bedrock_port_try ::
  "probe_env \<Rightarrow> string \<Rightarrow> int \<Rightarrow> datagram list \<times> (py_exception + (int \<times> bool) option)"
where
  "check_bedrock_port_try env host port =
     (case socket_result env of
        Some e \<Rightarrow> ([], Inl e)
      | None \<Rightarrow>
     (case struct_pack_Q (time_now env) of
        Inl e \<Rightarrow> ([], Inl e)
      | Inr ts \<Rightarrow>
     (case struct_pack_Q 0 of
        Inl e \<Rightarrow> ([], Inl e)
      | Inr guid \<Rightarrow>
     (let packet = [0x01] @ ts @ magic @ guid;
          sent = [(packet, host, port)]
      in case sendto_result env of
           Some e \<Rightarrow> (sent, Inl e)
         | None \<Rightarrow>
        (case recv_result env of
           Inl e \<Rightarrow> (sent, Inl e)
         | Inr data \<Rightarrow>
             if length data > 0 \<and> data ! 0 = 0x1c
             then (sent, Inr (Some (port, True)))
             else (sent, Inr None))))))"

definition check_bedrock_port ::
  "probe_env \<Rightarrow> string \<Rightarrow> int \<Rightarrow> datagram list \<times> (py_exception + int \<times> bool)"
where
  "check_bedrock_port env host port =
     (let (sent, r) = check_bedrock_port_try env host port;
          ret = (case r of Inr (Some v) \<Rightarrow> v | _ \<Rightarrow> (port, False))
      in (sent,
          case socket_result env of
            Some e \<Rightarrow> Inl UnboundLocalError
          | None \<Rightarrow> Inr ret))"

section \<open>The status decoder\<close>

text \<open>\<open>bytes.split(sep)\<close> with a one-byte separator: one more piece than separators.\<close>

fun split_bytes :: "byte \<Rightarrow> bytes \<Rightarrow> bytes list" where
  "split_bytes sep [] = [[]]"
| "split_bytes sep (b # bs) =
     (if b = sep then [] # split_bytes sep bs
      else (case split_bytes sep bs of
              [] \<Rightarrow> [[b]]
            | t # ts \<Rightarrow> (b # t) # ts))"

definition join_bytes :: "byte \<Rightarrow> bytes list \<Rightarrow> bytes" where
  "join_bytes sep ts = (case ts of [] \<Rightarrow> [] | t # r \<Rightarrow> t @ concat (map ((#) sep) r))"

record server_info =
  edition :: str
  motd :: str
  protocol :: str
  version :: str
  players :: str
  max_players :: str
  server_id :: str
  server_name :: str
  gamemode :: str
  info_port :: int

definition and_then :: "'e + 'a \<Rightarrow> ('a \<Rightarrow> 'e + 'b) \<Rightarrow> 'e + 'b" where
  "and_then r f = (case r of Inl e \<Rightarrow> Inl e | Inr v \<Rightarrow> f v)"

text \<open>
  The part of \<open>get_server_info\<close> after the datagram has arrived:
  \<^verbatim>\<open>
          if data[0] != 0x1c:
              return None
          server_info = data[33:].split(b';')
          if len(server_info) < 10:
              return None
          return {
              'edition': safe_decode(server_info[0]),
              ...
              'gamemode': safe_decode(server_info[8]),
              'port': port
          }
  \<close>
\<close>

definition decode_reply :: "bytes \<Rightarrow> int \<Rightarrow> py_exception + server_info option" where
  "decode_reply data port =
     (case data of
        [] \<Rightarrow> Inl IndexError
      | b # _ \<Rightarrow>
          if b \<noteq> 0x1c then Inr None
          else
            (let fields = split_bytes 0x3B (drop 33 data)
             in if length fields < 10 then Inr None
                else
                  and_then (safe_decode (fields ! 0)) (\<lambda>f0.
                  and_then (safe_decode (fields ! 1)) (\<lambda>f1.
                  and_then (safe_decode (fields ! 2)) (\<lambda>f2.
                  and_then (safe_decode (fields ! 3)) (\<lambda>f3.
                  and_then (safe_decode (fields ! 4)) (\<lambda>f4.
                  and_then (safe_decode (fields ! 5)) (\<lambda>f5.
                  and_then (safe_decode (fields ! 6)) (\<lambda>f6.
                  and_then (safe_decode (fields ! 7)) (\<lambda>f7.
                  and_then (safe_decode (fields ! 8)) (\<lambda>f8.
                    Inr (Some \<lparr>edition = f0, motd = f1, protocol = f2,
                                version = f3, players = f4, max_players = f5,
                                server_id = f6, server_name = f7, gamemode = f8,
                                info_port = port\<rparr>))))))))))))"

text \<open>
  \<^verbatim>\<open>
  def get_server_info(host: str, port: int):
      try:
          sock = socket.socket(socket.AF_INET, socket.SOCK_DGRAM)
          sock.settimeout(2)
          timestamp = int(time.time())
          magic = b'\x00\xff\xff\x00\xfe\xfe\xfe\xfe\xfd\xfd\xfd\xfd\x12\x34\x56\x78'
          packet = b'\x01' + struct.pack('>Q', timestamp) + magic + struct.pack('>Q', 0)
          sock.sendto(packet, (host, port))
          data, addr = sock.recvfrom(2048)
          ...
      except:
          return None
      finally:
          sock.close()
  \<close>
\<close>

definition get_server_info_try ::
  "probe_env \<Rightarrow> string \<Rightarrow> int \<Rightarrow> datagram list \<times> (py_exception + server_info option)"
where
  "get_server_info_try env host port =
     (case socket_result env of
        Some e \<Rightarrow> ([], Inl e)
      | None \<Rightarrow>
     (case struct_pack_Q (time_now env) of
        Inl e \<Rightarrow> ([], Inl e)
      | Inr ts \<Rightarrow>
     (case struct_pack_Q 0 of
        Inl e \<Rightarrow> ([], Inl e)
      | Inr guid \<Rightarrow>
     (let packet = [0x01] @ ts @ magic @ guid;
          sent = [(packet, host, port)]
      in case sendto_result env of
           Some e \<Rightarrow> (sent, Inl e)
         | None \<Rightarrow>
        (case recv_result env of
           Inl e \<Rightarrow> (sent, Inl e)
         | Inr data \<Rightarrow> (sent, decode_reply data port))))))"

definition get_server_info ::
  "probe_env \<Rightarrow> string \<Rightarrow> int \<Rightarrow> datagram list \<times> (py_exception + server_info option)"
where
  "get_server_info env host port =
     (let (sent, r) = get_server_info_try env host port;
          ret = (case r of Inl e \<Rightarrow> None | Inr v \<Rightarrow> v)
      in (sent,
          case socket_result env of
            Some e \<Rightarrow> Inl UnboundLocalError
          | None \<Rightarrow> Inr ret))"

section \<open>Scanning a port range\<close>

definition PORT_RANGE :: "int \<times> int" where
  "PORT_RANGE = (19130, 19630)"

definition MAX_WORKERS :: nat where
  "MAX_WORKERS = 100"

text \<open>
  \<^verbatim>\<open>
  async def scan_ports(host: str) -> list:
      ports_to_scan = range(PORT_RANGE[0], PORT_RANGE[1] + 1)
      active_ports = []
      with concurrent.futures.ThreadPoolExecutor(max_workers=MAX_WORKERS) as executor:
          loop = asyncio.get_event_loop()
          futures = [
              loop.run_in_executor(executor, check_bedrock_port, host, port)
              for port in ports_to_scan
          ]
          for future in asyncio.as_completed(futures):
              port, is_active = await future
              if is_active:
                  active_ports.append(port)
      return active_ports
  \<close>
  The global \<open>PORT_RANGE\<close> is a parameter. One future is created per port, in port
  order; \<open>as_completed\<close> hands them back in the order in which the worker threads
  finish, which is the parameter \<open>order\<close>: the indices of the futures, each once.
  Awaiting a future whose probe raised raises in \<open>scan_ports\<close>.
\<close>

fun collect_active :: "(py_exception + int \<times> bool) list \<Rightarrow> int list \<Rightarrow> py_exception + int list" where
  "collect_active [] active_ports = Inr active_ports"
| "collect_active (future # rest) active_ports =
     (case future of
        Inl e \<Rightarrow> Inl e
      | Inr (port, is_active) \<Rightarrow>
          collect_active rest (if is_active then active_ports @ [port] else active_ports))"

definition as_completed :: "nat list \<Rightarrow> 'a list \<Rightarrow> 'a list" where
  "as_completed order futures = map (\<lambda>i. futures ! i) order"

definition scan_ports ::
  "int \<times> int \<Rightarrow> (int \<Rightarrow> probe_env) \<Rightarrow> nat list \<Rightarrow> string \<Rightarrow> py_exception + int list"
where
  "scan_ports port_range envs order host =
     (let ports_to_scan = [fst port_range .. snd port_range];
          futures = map (\<lambda>port. snd (check_bedrock_port (envs port) host port)) ports_to_scan
      in collect_active (as_completed order futures) [])"

definition completion_order :: "int \<times> int \<Rightarrow> nat list \<Rightarrow> bool" where
  "completion_order port_range order \<longleftrightarrow>
     mset order = mset [0 ..< length [fst port_range .. snd port_range]]"

section \<open>The result aggregator\<close>

text \<open>
  The scanning part of \<open>scan_server\<close>:
  \<^verbatim>\<open>
      start_time = time.time()
      active_ports = await scan_ports(host)
      scan_time = time.time() - start_time
      server_info = None
      if active_ports:
          server_info = get_server_info(host, active_ports[0])
      result = format_results(host, active_ports, server_info, scan_time)
  \<close>
  \<open>scan_result\<close> holds the four arguments handed to \<open>format_results\<close>. The world of a scan
  gives the two clock readings, the world of each port's probe, the completion order and
  the world of the status probe. The datagrams of the status probe are returned with the
  outcome.
\<close>

record scan_world =
  start_time :: real
  end_time :: real
  probe_envs :: "int \<Rightarrow> probe_env"
  completion :: "nat list"
  info_envs :: "int \<Rightarrow> probe_env"

record scan_result =
  result_host :: string
  active_ports :: "int list"
  info :: "server_info option"
  scan_time :: real

definition scan_server ::
  "int \<times> int \<Rightarrow> scan_world \<Rightarrow> string \<Rightarrow> datagram list \<times> (py_exception + scan_result)"
where
  "scan_server port_range w host =
     (case scan_ports port_range (probe_envs w) (completion w) host of
        Inl e \<Rightarrow> ([], Inl e)
      | Inr ports \<Rightarrow>
          (let elapsed = end_time w - start_time w;
               (sent, r) = (if ports \<noteq> []
                            then get_server_info (info_envs w (hd ports)) host (hd ports)
                            else ([], Inr None))
           in (sent,
               case r of
                 Inl e \<Rightarrow> Inl e
               | Inr si \<Rightarrow>
                   Inr \<lparr>result_host = host, active_ports = ports,
                        info = si, scan_time = elapsed\<rparr>)))"

text \<open>
  A responder: what the remote host answers on each port, a datagram or nothing. Its
  probe world has a working socket and a clock, and \<open>recv\<close> times out where the
  responder is silent.
\<close>

definition responder_env :: "(int \<Rightarrow> int) \<Rightarrow> (int \<Rightarrow> bytes option) \<Rightarrow> int \<Rightarrow> probe_env" where
  "responder_env clock responder port =
     \<lparr>socket_result = None, time_now = clock port, sendto_result = None,
      recv_result = (case responder port of
                       None \<Rightarrow> Inl SocketTimeout
                     | Some d \<Rightarrow> Inr d)\<rparr>"

section \<open>Notions used to state the properties\<close>

text \<open>
  A pong is received by a probe when the probe got as far as \<open>recv\<close> (the socket was
  created, the timestamp was packed and the datagram was sent) and \<open>recv\<close> returned a
  non-empty datagram whose first byte is \<open>0x1C\<close>.
\<close>

definition pong_received :: "probe_env \<Rightarrow> bool" where
  "pong_received env \<longleftrightarrow>
     socket_result env = None
     \<and> 0 \<le> time_now env \<and> time_now env < 2 ^ 64
     \<and> sendto_result env = None
     \<and> (case recv_result env of Inl e \<Rightarrow> False | Inr data \<Rightarrow> data \<noteq> [] \<and> hd data = 0x1c)"

text \<open>The nine text entries of the dictionary, in the order of the payload.\<close>

definition text_fields :: "server_info \<Rightarrow> str list" where
  "text_fields si = [edition si, motd si, protocol si, version si, players si,
                     max_players si, server_id si, server_name si, gamemode si]"

text \<open>The ports whose futures complete, in completion order.\<close>

definition completed_ports :: "int \<times> int \<Rightarrow> nat list \<Rightarrow> int list" where
  "completed_ports port_range order = map (\<lambda>i. [fst port_range .. snd port_range] ! i) order"

subsection \<open>Concrete worlds\<close>

definition ascii :: "string \<Rightarrow> bytes" where
  "ascii s = map (\<lambda>c. of_nat (of_char c)) s"

definition example_reply :: bytes where
  "example_reply = [0x1c] @ replicate 32 0
      @ ascii ''MCPE;My Server;422;1.19;3;10;GUID1;Survival World;Survival;1''"

definition reply_env :: "int \<Rightarrow> bytes \<Rightarrow> probe_env" where
  "reply_env t data = \<lparr>socket_result = None, time_now = t, sendto_result = None,
                       recv_result = Inr data\<rparr>"

definition fixed_clock :: "int \<Rightarrow> int \<Rightarrow> int" where
  "fixed_clock t port = t"

definition two_open :: "int \<Rightarrow> bytes option" where
  "two_open port = (if port = 19130 \<or> port = 19131 then Some [0x1c] else None)"

section \<open>Properties of the decoders\<close>

lemma utf8_cps_Nil_iff: "utf8_cps bs = Some [] \<longleftrightarrow> bs = []"
  by (cases bs) (auto split: if_splits list.splits)

lemma safe_decode_total: "\<exists>s. safe_decode bs = Inr s"
  by (simp add: safe_decode_def split: sum.splits)

lemma safe_decode_utf8: "utf8_decode bs = Inr s \<Longrightarrow> safe_decode bs = Inr s"
  by (simp add: safe_decode_def)

lemma safe_decode_fallback:
  "utf8_decode bs = Inl e \<Longrightarrow> safe_decode bs = Inr (map unat bs)"
  by (simp add: safe_decode_def latin1_decode_ignore_def)

lemma utf8_decode_cases:
  "utf8_decode bs = Inl UnicodeDecodeError \<or> (\<exists>s. utf8_decode bs = Inr s)"
  by (simp add: utf8_decode_def split: option.splits)

lemma utf8_decode_nonempty: "utf8_decode bs = Inr s \<Longrightarrow> bs \<noteq> [] \<Longrightarrow> s \<noteq> []"
  by (auto simp: utf8_decode_def utf8_cps_Nil_iff split: option.splits)

text \<open>
  Claim C8. \<open>safe_decode\<close> is total over all byte strings and never raises: it returns
  the UTF-8 decoding when the bytes are well-formed UTF-8 and otherwise the single-byte
  (Latin-1) decoding, which has one character per byte; so every non-empty field, in
  particular one that holds invalid UTF-8, decodes to a non-empty string.
\<close>

theorem safe_decode_total_nonempty:
  "\<exists>s. safe_decode bs = Inr s
       \<and> (utf8_decode bs = Inr s
          \<or> (utf8_decode bs = Inl UnicodeDecodeError
              \<and> s = latin1_decode_ignore bs \<and> length s = length bs))
       \<and> (bs \<noteq> [] \<longrightarrow> s \<noteq> [])"
proof (cases "utf8_decode bs")
  case (Inl e)
  then have "e = UnicodeDecodeError"
    using utf8_decode_cases [of bs] by simp
  with Inl show ?thesis
    by (simp add: safe_decode_def latin1_decode_ignore_def)
next
  case (Inr s)
  then show ?thesis
    using utf8_decode_nonempty [of bs s] by (auto simp: safe_decode_def)
qed

theorem safe_decode_total_nonempty_witness:
  "[0x53, 0xFF :: byte] \<noteq> []
   \<and> utf8_decode [0x53, 0xFF] = Inl UnicodeDecodeError
   \<and> safe_decode [0x53, 0xFF] = Inr [83, 255]"
  using safe_decode_total_nonempty [of "[0x53, 0xFF]"]
  by (simp add: utf8_decode_def latin1_decode_ignore_def)

section \<open>The packet, the probes and the decoder\<close>

lemma length_be_bytes: "length (be_bytes k n) = k"
  by (induction k arbitrary: n) auto

lemma be_int_append: "be_int (bs @ [b]) = be_int bs * 256 + uint b"
  by (simp add: be_int_def)

lemma uint_byte_of_int: "uint (word_of_int n :: byte) = n mod 256"
  by (simp add: uint_word_of_int)

lemma be_int_be_bytes: "0 \<le> n \<Longrightarrow> be_int (be_bytes k n) = n mod 256 ^ k"
proof (induction k arbitrary: n)
  case 0
  then show ?case by (simp add: be_int_def)
next
  case (Suc k)
  have "be_int (be_bytes (Suc k) n) = (n div 256) mod 256 ^ k * 256 + n mod 256"
    using Suc by (simp add: be_int_append uint_byte_of_int)
  also have "\<dots> = n mod 256 ^ Suc k"
    using zmod_zmult2_eq [of "256 ^ k" n 256] by simp
  finally show ?case .
qed

lemma struct_pack_Q_Inr:
  "struct_pack_Q n = Inr bs \<Longrightarrow> length bs = 8 \<and> be_int bs = n"
  by (auto simp: struct_pack_Q_def length_be_bytes be_int_be_bytes split: if_splits)

lemma struct_pack_Q_0: "struct_pack_Q 0 = Inr (replicate 8 0)"
  by (simp add: struct_pack_Q_def eval_nat_numeral)

lemma struct_pack_Q_cases:
  "struct_pack_Q n = (if 0 \<le> n \<and> n < 2 ^ 64 then Inr (be_bytes 8 n) else Inl StructError)"
  by (simp add: struct_pack_Q_def)

lemma sent_check_bedrock_port:
  "d \<in> set (fst (check_bedrock_port env host port)) \<Longrightarrow>
   \<exists>ts. struct_pack_Q (time_now env) = Inr ts \<and> d = ([0x01] @ ts @ magic @ replicate 8 0, host, port)"
  by (auto simp: check_bedrock_port_def check_bedrock_port_try_def struct_pack_Q_0 Let_def
           split: option.splits sum.splits if_splits)

lemma sent_get_server_info:
  "d \<in> set (fst (get_server_info env host port)) \<Longrightarrow>
   \<exists>ts. struct_pack_Q (time_now env) = Inr ts \<and> d = ([0x01] @ ts @ magic @ replicate 8 0, host, port)"
  by (auto simp: get_server_info_def get_server_info_try_def struct_pack_Q_0 Let_def
           split: option.splits sum.splits if_splits)

lemma length_magic: "length magic = 16" by (simp add: magic_def)

text \<open>
  Claim C5. Every datagram that the port probe or the status probe hands to \<open>sendto\<close>
  is 33 bytes long and laid out as: the byte \<open>0x01\<close>, then 8 bytes that are the
  big-endian encoding of the timestamp read by this very probe, then the 16 bytes of the
  magic marker, then 8 zero bytes (the big-endian client GUID 0); it goes to the probed
  host and port. Each probe builds its own packet from its own clock reading.
\<close>

theorem probe_datagram_layout:
  assumes "d \<in> set (fst (check_bedrock_port env host port)) \<union> set (fst (get_server_info env host port))"
  shows "\<exists>ts. d = ([0x01] @ ts @ magic @ replicate 8 0, host, port)
              \<and> length ts = 8 \<and> be_int ts = time_now env
              \<and> length magic = 16 \<and> be_int (replicate 8 0) = 0
              \<and> length (fst d) = 33"
proof -
  from assms obtain ts where ts: "struct_pack_Q (time_now env) = Inr ts"
    and d: "d = ([0x01] @ ts @ magic @ replicate 8 0, host, port)"
    using sent_check_bedrock_port sent_get_server_info by blast
  have "length ts = 8" "be_int ts = time_now env"
    using struct_pack_Q_Inr [OF ts] by simp_all
  moreover have "be_int (replicate 8 (0::byte)) = 0"
    by (simp add: be_int_def eval_nat_numeral)
  ultimately show ?thesis
    using d by (simp add: length_magic)
qed

lemma hd_conv_nth0: "data \<noteq> [] \<Longrightarrow> data ! 0 = hd data"
  by (cases data) auto

lemma check_bedrock_port_created:
  "socket_result env = None \<Longrightarrow>
   snd (check_bedrock_port env host port) = Inr (port, pong_received env)"
  by (auto simp: check_bedrock_port_def check_bedrock_port_try_def struct_pack_Q_0 Let_def
        struct_pack_Q_def pong_received_def hd_conv_nth0
           split: option.splits sum.splits if_splits)

lemma check_bedrock_port_unbound:
  "socket_result env = Some e \<Longrightarrow>
   snd (check_bedrock_port env host port) = Inl UnboundLocalError"
  by (simp add: check_bedrock_port_def check_bedrock_port_try_def)

lemma check_bedrock_port_echo:
  "snd (check_bedrock_port env host port) = Inr r \<Longrightarrow> fst r = port"
  by (cases "socket_result env") (auto simp: check_bedrock_port_created check_bedrock_port_unbound)

lemma get_server_info_created:
  "socket_result env = None \<Longrightarrow> \<exists>r. snd (get_server_info env host port) = Inr r"
  by (simp add: get_server_info_def split: prod.splits)

lemma get_server_info_unbound:
  "socket_result env = Some e \<Longrightarrow>
   snd (get_server_info env host port) = Inl UnboundLocalError"
  by (simp add: get_server_info_def get_server_info_try_def)

lemma get_server_info_reply:
  "socket_result env = None \<Longrightarrow> 0 \<le> time_now env \<Longrightarrow> time_now env < 2 ^ 64 \<Longrightarrow>
   sendto_result env = None \<Longrightarrow> recv_result env = Inr data \<Longrightarrow>
   snd (get_server_info env host port) = Inr (case decode_reply data port of Inl e \<Rightarrow> None | Inr v \<Rightarrow> v)"
  by (simp add: get_server_info_def get_server_info_try_def struct_pack_Q_def Let_def)

text \<open>
  Claim C1. The claim says that no failure of a probe ever reaches the caller of
  \<open>check_bedrock_port\<close>. When \<open>socket.socket\<close> itself raises, the handler swallows that
  exception, but the \<open>finally\<close> clause then reads the unbound local \<open>sock\<close> and the
  resulting \<open>UnboundLocalError\<close> leaves the function. (With a socket the
  classification is as claimed: lemma \<open>check_bedrock_port_created\<close>.)
\<close>

theorem check_bedrock_port_socket_failure:
  "snd (check_bedrock_port
          \<lparr>socket_result = Some OSError, time_now = t, sendto_result = s, recv_result = r\<rparr>
          host port) = Inl UnboundLocalError"
  by (simp add: check_bedrock_port_def check_bedrock_port_try_def)

lemma split_bytes_nonempty: "split_bytes sep bs \<noteq> []"
  by (induction bs) (auto split: list.splits)

lemma split_bytes_no_sep: "sep \<notin> set t \<Longrightarrow> split_bytes sep t = [t]"
  by (induction t) auto

lemma split_bytes_append_sep:
  "sep \<notin> set t \<Longrightarrow> split_bytes sep (t @ sep # rest) = t # split_bytes sep rest"
  by (induction t) auto

lemma join_bytes_Cons2:
  "join_bytes sep (t # u # r) = t @ sep # join_bytes sep (u # r)"
  by (simp add: join_bytes_def)

lemma split_bytes_join_aux:
  "\<forall>x\<in>set (t # r). sep \<notin> set x \<Longrightarrow> split_bytes sep (join_bytes sep (t # r)) = t # r"
proof (induction r arbitrary: t)
  case Nil
  then show ?case by (simp add: join_bytes_def split_bytes_no_sep)
next
  case (Cons u r)
  then show ?case
    by (simp add: join_bytes_Cons2 split_bytes_append_sep)
qed

lemma split_bytes_join:
  "ts \<noteq> [] \<Longrightarrow> \<forall>t\<in>set ts. sep \<notin> set t \<Longrightarrow> split_bytes sep (join_bytes sep ts) = ts"
  by (cases ts) (simp_all add: split_bytes_join_aux)

lemma join_split_bytes: "join_bytes sep (split_bytes sep bs) = bs"
proof (induction bs)
  case Nil
  show ?case by (simp add: join_bytes_def)
next
  case (Cons b bs)
  obtain t ts where sp: "split_bytes sep bs = t # ts"
    using split_bytes_nonempty [of sep bs] by (cases "split_bytes sep bs") auto
  with Cons show ?case
    by (auto simp: join_bytes_def)
qed

lemma length_split_bytes: "length (split_bytes sep bs) = Suc (count_list bs sep)"
  by (induction bs) (auto split: list.splits simp: split_bytes_nonempty)

lemma dm64: "c < 64 \<Longrightarrow> (a * 64 + c) div 64 = a \<and> (a * 64 + c) mod 64 = (c::nat)"
  by simp

lemma enc2': 
  assumes "2 \<le> a" "a < 32" "c < 64"
  shows "utf8_enc1 (a * 64 + c) = [0xC0 + a, 0x80 + c]"
proof -
  have "\<not> a * 64 + c < 0x80" "a * 64 + c < 0x800" using assms by linarith+
  then show ?thesis using assms by (simp add: utf8_enc1_def)
qed

lemma enc3':
  assumes "a < 16" "b < 64" "c < 64" "a = 0 \<longrightarrow> 32 \<le> b"
  shows "utf8_enc1 (a * 4096 + b * 64 + c) = [0xE0 + a, 0x80 + b, 0x80 + c]"
proof -
  let ?x = "a * 4096 + b * 64 + c"
  have x: "?x = (a * 64 + b) * 64 + c" by simp
  have r: "\<not> ?x < 0x80" "\<not> ?x < 0x800" "?x < 0x10000" using assms by linarith+
  have d1: "?x div 64 = a * 64 + b" "?x mod 64 = c"
    unfolding x using dm64 [OF assms(3), of "a * 64 + b"] by blast+
  have d2: "(a * 64 + b) div 64 = a" "(a * 64 + b) mod 64 = b"
    using dm64 [OF assms(2), of a] by blast+
  have "?x div 4096 = ?x div 64 div 64" by (simp add: div_mult2_eq)
  then have d3: "?x div 4096 = a" using d1 d2 by simp
  show ?thesis
    unfolding utf8_enc1_def using r d1 d2 d3 by simp
qed

lemma enc4':
  assumes "a < 5" "b < 64" "c < 64" "d < 64" "a = 0 \<longrightarrow> 16 \<le> b"
  shows "utf8_enc1 (a * 262144 + b * 4096 + c * 64 + d)
         = [0xF0 + a, 0x80 + b, 0x80 + c, 0x80 + d]"
proof -
  let ?x = "a * 262144 + b * 4096 + c * 64 + d"
  have x: "?x = ((a * 64 + b) * 64 + c) * 64 + d" by simp
  have r: "\<not> ?x < 0x80" "\<not> ?x < 0x800" "\<not> ?x < 0x10000" using assms by linarith+
  have d1: "?x div 64 = (a * 64 + b) * 64 + c" "?x mod 64 = d"
    unfolding x using dm64 [OF assms(4), of "(a * 64 + b) * 64 + c"] by blast+
  have d2: "((a * 64 + b) * 64 + c) div 64 = a * 64 + b" "((a * 64 + b) * 64 + c) mod 64 = c"
    using dm64 [OF assms(3), of "a * 64 + b"] by blast+
  have d3: "(a * 64 + b) div 64 = a" "(a * 64 + b) mod 64 = b"
    using dm64 [OF assms(2), of a] by blast+
  have "?x div 4096 = ?x div 64 div 64" by (simp add: div_mult2_eq)
  then have d4: "?x div 4096 = a * 64 + b" using d1 d2 by simp
  have "?x div 262144 = ?x div 4096 div 64" by (simp add: div_mult2_eq)
  then have d5: "?x div 262144 = a" using d4 d3 by simp
  show ?thesis
    unfolding utf8_enc1_def using r d1 d2 d3 d4 d5 by simp
qed

lemma enc1: "b0 < 0x80 \<Longrightarrow> utf8_enc1 b0 = [b0]"
  by (simp add: utf8_enc1_def)

lemma enc2:
  assumes "0xC2 \<le> b0" "b0 \<le> 0xDF" "cont b1"
  shows "utf8_enc1 ((b0 - 0xC0) * 64 + (b1 - 0x80)) = [b0, b1]"
proof -
  have p: "2 \<le> b0 - 0xC0" "b0 - 0xC0 < 32" "b1 - 0x80 < 64"
    using assms unfolding cont_def by linarith+
  have e: "0xC0 + (b0 - 0xC0) = b0" "0x80 + (b1 - 0x80) = b1"
    using assms unfolding cont_def by linarith+
  show ?thesis using enc2' [OF p] by (simp only: e)
qed

lemma enc3:
  assumes "0xE0 \<le> b0" "b0 \<le> 0xEF"
    "(if b0 = 0xE0 then 0xA0 else 0x80) \<le> b1" "b1 \<le> (if b0 = 0xED then 0x9F else 0xBF)"
    "cont b2"
  shows "utf8_enc1 ((b0 - 0xE0) * 4096 + (b1 - 0x80) * 64 + (b2 - 0x80)) = [b0, b1, b2]"
proof -
  have b1: "0x80 \<le> b1" "b1 \<le> 0xBF" "b0 = 0xE0 \<longrightarrow> 0xA0 \<le> b1"
    using assms(3,4) by (auto split: if_splits)
  have p: "b0 - 0xE0 < 16" "b1 - 0x80 < 64" "b2 - 0x80 < 64" "b0 - 0xE0 = 0 \<longrightarrow> 32 \<le> b1 - 0x80"
    using assms(1,2,5) b1 unfolding cont_def by linarith+
  have e: "0xE0 + (b0 - 0xE0) = b0" "0x80 + (b1 - 0x80) = b1" "0x80 + (b2 - 0x80) = b2"
    using assms(1,2,5) b1 unfolding cont_def by linarith+
  show ?thesis using enc3' [OF p] by (simp only: e)
qed

lemma enc4:
  assumes "0xF0 \<le> b0" "b0 \<le> 0xF4"
    "(if b0 = 0xF0 then 0x90 else 0x80) \<le> b1" "b1 \<le> (if b0 = 0xF4 then 0x8F else 0xBF)"
    "cont b2" "cont b3"
  shows "utf8_enc1 ((b0 - 0xF0) * 262144 + (b1 - 0x80) * 4096 + (b2 - 0x80) * 64 + (b3 - 0x80))
         = [b0, b1, b2, b3]"
proof -
  have b1: "0x80 \<le> b1" "b1 \<le> 0xBF" "b0 = 0xF0 \<longrightarrow> 0x90 \<le> b1"
    using assms(3,4) by (auto split: if_splits)
  have p: "b0 - 0xF0 < 5" "b1 - 0x80 < 64" "b2 - 0x80 < 64" "b3 - 0x80 < 64"
    "b0 - 0xF0 = 0 \<longrightarrow> 16 \<le> b1 - 0x80"
    using assms(1,2,5,6) b1 unfolding cont_def by linarith+
  have e: "0xF0 + (b0 - 0xF0) = b0" "0x80 + (b1 - 0x80) = b1" "0x80 + (b2 - 0x80) = b2"
    "0x80 + (b3 - 0x80) = b3"
    using assms(1,2,5,6) b1 unfolding cont_def by linarith+
  show ?thesis using enc4' [OF p] by (simp only: e)
qed

lemma utf8_cps_Cons:
  assumes "utf8_cps (b0 # bs) = Some s"
  shows "\<exists>c s' r. s = c # s' \<and> b0 # bs = utf8_enc1 c @ r \<and> utf8_cps r = Some s' \<and> length r \<le> length bs"
proof -
  consider (one) "b0 < 0x80" | (two) "0xC2 \<le> b0" "b0 \<le> 0xDF"
    | (three) "0xE0 \<le> b0" "b0 \<le> 0xEF" | (four) "0xF0 \<le> b0" "b0 \<le> 0xF4"
    | (bad) "\<not> b0 < 0x80" "\<not> (0xC2 \<le> b0 \<and> b0 \<le> 0xDF)" "\<not> (0xE0 \<le> b0 \<and> b0 \<le> 0xEF)" "\<not> (0xF0 \<le> b0 \<and> b0 \<le> 0xF4)"
    by blast
  then show ?thesis
  proof cases
    case one
    with assms show ?thesis by (auto simp: enc1)
  next
    case two
    with assms obtain b1 r s' where "bs = b1 # r" "cont b1" "utf8_cps r = Some s'"
      "s = ((b0 - 0xC0) * 64 + (b1 - 0x80)) # s'"
      by (auto split: list.splits if_splits)
    with two show ?thesis by (simp add: enc2)
  next
    case three
    then have n: "\<not> b0 < 0x80" "\<not> (0xC2 \<le> b0 \<and> b0 \<le> 0xDF)" by simp_all
    with three assms obtain b1 b2 r s' where "bs = b1 # b2 # r"
      "(if b0 = 0xE0 then 0xA0 else 0x80) \<le> b1" "b1 \<le> (if b0 = 0xED then 0x9F else 0xBF)" "cont b2"
      "utf8_cps r = Some s'"
      "s = ((b0 - 0xE0) * 4096 + (b1 - 0x80) * 64 + (b2 - 0x80)) # s'"
      by (auto split: list.splits if_splits)
    with three show ?thesis by (simp add: enc3)
  next
    case four
    then have n: "\<not> b0 < 0x80" "\<not> (0xC2 \<le> b0 \<and> b0 \<le> 0xDF)" "\<not> (0xE0 \<le> b0 \<and> b0 \<le> 0xEF)" by simp_all
    with four assms obtain b1 b2 b3 r s' where "bs = b1 # b2 # b3 # r"
      "(if b0 = 0xF0 then 0x90 else 0x80) \<le> b1" "b1 \<le> (if b0 = 0xF4 then 0x8F else 0xBF)" "cont b2" "cont b3"
      "utf8_cps r = Some s'"
      "s = ((b0 - 0xF0) * 262144 + (b1 - 0x80) * 4096 + (b2 - 0x80) * 64 + (b3 - 0x80)) # s'"
      by (auto split: list.splits if_splits)
    with four show ?thesis by (simp add: enc4)
  next
    case bad
    with assms show ?thesis by simp
  qed
qed

lemma utf8_cps_roundtrip: "utf8_cps bs = Some s \<Longrightarrow> concat (map utf8_enc1 s) = bs"
proof (induction "length bs" arbitrary: bs s rule: less_induct)
  case less
  show ?case
  proof (cases bs)
    case Nil
    with less.prems show ?thesis by simp
  next
    case (Cons b0 rest)
    with less.prems obtain c s' r where
      *: "s = c # s'" "b0 # rest = utf8_enc1 c @ r" "utf8_cps r = Some s'" "length r \<le> length rest"
      using utf8_cps_Cons by blast
    have "length r < length bs"
      using *(4) Cons by simp
    then have "concat (map utf8_enc1 s') = r"
      using less.hyps [of r s'] *(3) by blast
    with * Cons show ?thesis by simp
  qed
qed

lemma utf8_decode_roundtrip: "utf8_decode bs = Inr s \<Longrightarrow> utf8_encode s = bs"
proof -
  assume "utf8_decode bs = Inr s"
  then have "utf8_cps (map unat bs) = Some s"
    by (simp add: utf8_decode_def split: option.splits)
  then have "concat (map utf8_enc1 s) = map unat bs"
    by (rule utf8_cps_roundtrip)
  then show ?thesis
    by (simp add: utf8_encode_def comp_def)
qed

lemma utf8_decode_ascii:
  "\<forall>b\<in>set bs. b < 0x80 \<Longrightarrow> utf8_decode bs = Inr (map unat bs)"
proof -
  assume a: "\<forall>b\<in>set bs. b < 0x80"
  have "utf8_cps (map unat bs) = Some (map unat bs)"
    using a by (induction bs) (auto simp: word_less_nat_alt)
  then show ?thesis by (simp add: utf8_decode_def)
qed

lemma and_then_Inr: "and_then (Inr v) f = f v"
  by (simp add: and_then_def)

lemma lt9_cases: "i < 9 \<Longrightarrow> i = 0 \<or> i = 1 \<or> i = 2 \<or> i = 3 \<or> i = 4 \<or> i = 5 \<or> i = 6 \<or> i = 7 \<or> i = (8::nat)"
  by arith

lemma decode_reply_fields:
  assumes "data \<noteq> []" "hd data = 0x1c" "toks = split_bytes 0x3B (drop 33 data)"
    "10 \<le> length toks"
  shows "\<exists>si. decode_reply data port = Inr (Some si) \<and> info_port si = port
              \<and> (\<forall>i<9. safe_decode (toks ! i) = Inr (text_fields si ! i))"
proof -
  define f where "f i = (case safe_decode (toks ! i) of Inr s \<Rightarrow> s | Inl e \<Rightarrow> [])" for i
  have f: "safe_decode (toks ! i) = Inr (f i)" for i
    using safe_decode_total [of "toks ! i"] by (auto simp: f_def)
  let ?si = "\<lparr>edition = f 0, motd = f 1, protocol = f 2, version = f 3, players = f 4,
              max_players = f 5, server_id = f 6, server_name = f 7, gamemode = f 8,
              info_port = port\<rparr>"
  obtain b rest where d: "data = b # rest" "b = 0x1c"
    using assms(1,2) by (cases data) auto
  have "decode_reply data port = Inr (Some ?si)"
    using assms(4) f unfolding decode_reply_def d assms(3) [symmetric, unfolded d]
    by (simp add: and_then_Inr Let_def)
  moreover have "\<forall>i<9. safe_decode (toks ! i) = Inr (text_fields ?si ! i)"
  proof (intro allI impI)
    fix i :: nat assume "i < 9"
    then show "safe_decode (toks ! i) = Inr (text_fields ?si ! i)"
      using lt9_cases [of i] f by (auto simp: text_fields_def)
  qed
  ultimately show ?thesis by auto
qed

lemma decode_reply_short:
  "data \<noteq> [] \<Longrightarrow> length (split_bytes 0x3B (drop 33 data)) < 10 \<Longrightarrow>
   decode_reply data port = Inr None"
  by (cases data) (auto simp: decode_reply_def Let_def)

lemma decode_reply_wrong_id:
  "data \<noteq> [] \<Longrightarrow> hd data \<noteq> 0x1c \<Longrightarrow> decode_reply data port = Inr None"
  by (cases data) (auto simp: decode_reply_def)

lemma decode_reply_empty: "decode_reply [] port = Inl IndexError"
  by (simp add: decode_reply_def)

text \<open>
  Claim C2. When the status probe receives a reply whose first byte is \<open>0x1C\<close> and whose
  bytes from offset 33 on split at \<open>;\<close> into exactly 10 pieces, \<open>get_server_info\<close>
  returns a record whose nine text fields are the decodings of pieces 0 to 8 and whose
  port is the probed port; a piece that is valid UTF-8 is kept verbatim (the field is its
  UTF-8 decoding, and encoding the field gives the piece back). When there are fewer
  than 10 pieces the result is \<open>None\<close>.
\<close>

theorem get_server_info_fields:
  assumes "socket_result env = None" "0 \<le> time_now env" "time_now env < 2 ^ 64"
    "sendto_result env = None" "recv_result env = Inr data"
    "data \<noteq> []" "hd data = 0x1c" "toks = split_bytes 0x3B (drop 33 data)"
  shows "(length toks = 10 \<longrightarrow>
           (\<exists>si. snd (get_server_info env host port) = Inr (Some si) \<and> info_port si = port
              \<and> (\<forall>i<9. safe_decode (toks ! i) = Inr (text_fields si ! i)
                    \<and> (\<forall>s. utf8_decode (toks ! i) = Inr s \<longrightarrow>
                           text_fields si ! i = s \<and> utf8_encode (text_fields si ! i) = toks ! i))))
       \<and> (length toks < 10 \<longrightarrow> snd (get_server_info env host port) = Inr None)"
proof (intro conjI impI)
  assume "length toks = 10"
  then have "10 \<le> length toks" by simp
  from decode_reply_fields [OF assms(6,7,8) this, of port]
  obtain si where si: "decode_reply data port = Inr (Some si)" "info_port si = port"
    "\<forall>i<9. safe_decode (toks ! i) = Inr (text_fields si ! i)" by blast
  have g: "snd (get_server_info env host port) = Inr (Some si)"
    using get_server_info_reply [OF assms(1-5)] si(1) by simp
  have "\<forall>i<9. safe_decode (toks ! i) = Inr (text_fields si ! i)
           \<and> (\<forall>s. utf8_decode (toks ! i) = Inr s \<longrightarrow>
                  text_fields si ! i = s \<and> utf8_encode (text_fields si ! i) = toks ! i)"
  proof (intro allI impI conjI)
    fix i :: nat assume i: "i < 9"
    show sd: "safe_decode (toks ! i) = Inr (text_fields si ! i)" using si(3) i by blast
    fix s assume u: "utf8_decode (toks ! i) = Inr s"
    show "text_fields si ! i = s" using sd safe_decode_utf8 [OF u] by simp
    then show "utf8_encode (text_fields si ! i) = toks ! i"
      using utf8_decode_roundtrip [OF u] by simp
  qed
  with g si(2) show "\<exists>si. snd (get_server_info env host port) = Inr (Some si) \<and> info_port si = port
              \<and> (\<forall>i<9. safe_decode (toks ! i) = Inr (text_fields si ! i)
                    \<and> (\<forall>s. utf8_decode (toks ! i) = Inr s \<longrightarrow>
                           text_fields si ! i = s \<and> utf8_encode (text_fields si ! i) = toks ! i))"
    by blast
next
  assume "length toks < 10"
  then show "snd (get_server_info env host port) = Inr None"
    using get_server_info_reply [OF assms(1-5)] decode_reply_short [OF assms(6)] assms(8)
    by simp
qed

lemma example_split: "split_bytes 0x3B (drop 33 example_reply) =
   [ascii ''MCPE'', ascii ''My Server'', ascii ''422'', ascii ''1.19'', ascii ''3'', ascii ''10'',
    ascii ''GUID1'', ascii ''Survival World'', ascii ''Survival'', ascii ''1'']"
  by (simp add: example_reply_def ascii_def)

lemma collect_active_Inr:
  "collect_active (map (\<lambda>p. Inr (p, opn p)) ps) acc = Inr (acc @ filter opn ps)"
  by (induction ps arbitrary: acc) auto

lemma collect_active_all_Inr:
  "collect_active futs acc = Inr r \<Longrightarrow> f \<in> set futs \<Longrightarrow> \<exists>v. f = Inr v"
  by (induction futs acc rule: collect_active.induct) (auto split: sum.splits prod.splits)

lemma completion_order_set:
  "completion_order port_range order \<Longrightarrow>
   set order = {0 ..< length [fst port_range .. snd port_range]}"
proof -
  assume "completion_order port_range order"
  then have "mset order = mset [0 ..< length [fst port_range .. snd port_range]]"
    by (simp only: completion_order_def)
  then have "set order = set [0 ..< length [fst port_range .. snd port_range]]"
    by (rule mset_eq_setD)
  then show ?thesis by (simp only: set_upt)
qed

lemma completion_order_less:
  "completion_order port_range order \<Longrightarrow> i \<in> set order \<Longrightarrow>
   i < length [fst port_range .. snd port_range]"
  using completion_order_set [of port_range order] by simp

lemma mset_completed_ports:
  assumes "completion_order port_range order"
  shows "mset (completed_ports port_range order) = mset [fst port_range .. snd port_range]"
proof -
  let ?ps = "[fst port_range .. snd port_range]"
  have o: "mset order = mset [0 ..< length ?ps]"
    using assms by (simp only: completion_order_def)
  have "mset (map (\<lambda>i. ?ps ! i) order) = image_mset (\<lambda>i. ?ps ! i) (mset order)"
    by (simp only: mset_map)
  also have "\<dots> = mset (map (\<lambda>i. ?ps ! i) [0 ..< length ?ps])"
    by (simp only: o mset_map)
  also have "\<dots> = mset ?ps" by (simp only: map_nth)
  finally show ?thesis by (simp only: completed_ports_def)
qed

lemma set_completed_ports:
  "completion_order port_range order \<Longrightarrow>
   set (completed_ports port_range order) = {fst port_range .. snd port_range}"
  using mset_eq_setD [OF mset_completed_ports, of port_range order] by simp

lemma distinct_completed_ports:
  "completion_order port_range order \<Longrightarrow> distinct (completed_ports port_range order)"
  using mset_eq_imp_distinct_iff [OF mset_completed_ports, of port_range order] by simp

lemma completed_ports_in_order:
  "completed_ports port_range [0 ..< length [fst port_range .. snd port_range]]
   = [fst port_range .. snd port_range]"
  unfolding completed_ports_def by (rule map_nth)

lemma as_completed_futures:
  assumes "completion_order port_range order"
  shows "as_completed order (map f [fst port_range .. snd port_range])
         = map f (completed_ports port_range order)"
  using completion_order_less [OF assms]
  by (simp add: as_completed_def completed_ports_def)

lemma scan_ports_created:
  assumes co: "completion_order port_range order"
    and ok: "\<forall>p\<in>{fst port_range .. snd port_range}. socket_result (envs p) = None"
  shows "scan_ports port_range envs order host
         = Inr (filter (\<lambda>p. pong_received (envs p)) (completed_ports port_range order))"
proof -
  let ?cp = "completed_ports port_range order"
  have m: "map (\<lambda>port. snd (check_bedrock_port (envs port) host port)) ?cp
        = map (\<lambda>p. Inr (p, pong_received (envs p))) ?cp"
    using ok set_completed_ports [OF co] by (simp add: check_bedrock_port_created)
  show ?thesis
    unfolding scan_ports_def Let_def as_completed_futures [OF co] m
    using collect_active_Inr [of "\<lambda>p. pong_received (envs p)" ?cp "[]"] by simp
qed

lemma scan_ports_Inr_created:
  assumes co: "completion_order port_range order"
    and r: "scan_ports port_range envs order host = Inr active"
    and p: "p \<in> {fst port_range .. snd port_range}"
  shows "socket_result (envs p) = None"
proof (rule ccontr)
  let ?f = "\<lambda>port. snd (check_bedrock_port (envs port) host port)"
  assume "socket_result (envs p) \<noteq> None"
  then obtain e where "socket_result (envs p) = Some e" by auto
  then have u: "?f p = Inl UnboundLocalError"
    by (rule check_bedrock_port_unbound)
  have "p \<in> set (completed_ports port_range order)"
    using p set_completed_ports [OF co] by simp
  then have "?f p \<in> set (map ?f (completed_ports port_range order))"
    by simp
  moreover have "collect_active (map ?f (completed_ports port_range order)) [] = Inr active"
    using r unfolding scan_ports_def Let_def as_completed_futures [OF co] .
  ultimately obtain v where "?f p = Inr v"
    using collect_active_all_Inr by blast
  with u show False by simp
qed

lemma be_bytes_example: "be_bytes 8 1700000000 = [0, 0, 0, 0, 101, 83, 241, 0]"
  by code_simp

lemma be_bytes_zero: "be_bytes 8 0 = replicate 8 0"
  by (simp add: eval_nat_numeral)

theorem probe_datagram_layout_witness:
  "([0x01] @ [0, 0, 0, 0, 101, 83, 241, 0] @ magic @ replicate 8 0, ''h'', 19131)
     \<in> set (fst (check_bedrock_port (reply_env 1700000000 example_reply) ''h'' 19131))
          \<union> set (fst (get_server_info (reply_env 1700000000 example_reply) ''h'' 19131))
   \<and> length (fst ([0x01] @ [0, 0, 0, 0, 101, 83, 241, 0 :: byte] @ magic @ replicate 8 0, ''h'', 19131 :: int)) = 33"
proof -
  let ?d = "([0x01] @ [0, 0, 0, 0, 101, 83, 241, 0] @ magic @ replicate 8 0, ''h'', 19131 :: int)"
  have m: "?d \<in> set (fst (check_bedrock_port (reply_env 1700000000 example_reply) ''h'' 19131))
          \<union> set (fst (get_server_info (reply_env 1700000000 example_reply) ''h'' 19131))"
    by (simp add: check_bedrock_port_def check_bedrock_port_try_def reply_env_def
          struct_pack_Q_def be_bytes_example be_bytes_zero
          example_reply_def)
  from probe_datagram_layout [OF m] have "length (fst ?d) = 33" by blast
  with m show ?thesis by blast
qed

text \<open>
  Claim C4. The claim says that \<open>get_server_info\<close> never raises to its caller. When
  \<open>socket.socket\<close> itself raises, the handler returns \<open>None\<close>, but the \<open>finally\<close> clause
  runs before the function leaves, reads the unbound local \<open>sock\<close>, and the resulting
  \<open>UnboundLocalError\<close> replaces the return. (With a socket the function always returns:
  lemma \<open>get_server_info_created\<close>.)
\<close>

theorem get_server_info_socket_failure:
  "snd (get_server_info
          \<lparr>socket_result = Some OSError, time_now = t, sendto_result = s, recv_result = r\<rparr>
          host port) = Inl UnboundLocalError"
  by (simp add: get_server_info_def get_server_info_try_def)

lemma example_reply_fields:
  "split_bytes 0x3B (drop 33 example_reply) =
   [ascii ''MCPE'', ascii ''My Server'', ascii ''422'', ascii ''1.19'', ascii ''3'', ascii ''10'',
    ascii ''GUID1'', ascii ''Survival World'', ascii ''Survival'', ascii ''1'']"
  by (simp add: example_reply_def ascii_def)

lemma safe_decode_ascii:
  "\<forall>b\<in>set bs. b < 0x80 \<Longrightarrow> safe_decode bs = Inr (map unat bs)"
  by (simp add: safe_decode_utf8 utf8_decode_ascii)

theorem get_server_info_fields_witness:
  "length (split_bytes 0x3B (drop 33 example_reply)) = 10
   \<and> (\<exists>si. snd (get_server_info (reply_env 1700000000 example_reply) ''h'' 19131) = Inr (Some si)
           \<and> info_port si = 19131
           \<and> server_name si = map of_char ''Survival World''
           \<and> players si = map of_char ''3''
           \<and> max_players si = map of_char ''10'')"
proof -
  let ?env = "reply_env 1700000000 example_reply"
  let ?toks = "split_bytes 0x3B (drop 33 example_reply)"
  have h: "socket_result ?env = None" "0 \<le> time_now ?env" "time_now ?env < 2 ^ 64"
    "sendto_result ?env = None" "recv_result ?env = Inr example_reply"
    by (simp_all add: reply_env_def)
  have d: "example_reply \<noteq> []" "hd example_reply = 0x1c"
    by (simp_all add: example_reply_def)
  have l: "length ?toks = 10" by (simp add: example_reply_fields)
  from get_server_info_fields [OF h d refl, of "''h''" 19131] l
  obtain si where si: "snd (get_server_info ?env ''h'' 19131) = Inr (Some si)"
      "info_port si = 19131"
      "\<forall>i<9. safe_decode (?toks ! i) = Inr (text_fields si ! i)"
    by blast
  have "safe_decode (?toks ! 7) = Inr (text_fields si ! 7)"
       "safe_decode (?toks ! 4) = Inr (text_fields si ! 4)"
       "safe_decode (?toks ! 5) = Inr (text_fields si ! 5)"
    using si(3) by simp_all
  then have "server_name si = map of_char ''Survival World''"
    "players si = map of_char ''3''" "max_players si = map of_char ''10''"
    by (simp_all add: example_reply_fields text_fields_def safe_decode_ascii ascii_def)
  with si(1,2) l show ?thesis by blast
qed

end
